theory Spec2Isabelle
  imports Complex_Main "HOL-Library.AList"
begin

section \<open>JavaScript values and plain objects\<close>

text \<open>
  The values the two components read from their props. Arrays and objects are
  references (\<open>JRef\<close>) and so are functions (\<open>JFun\<close>): the code compares them with
  \<open>===\<close> and \<open>!==\<close> only, which is identity of the reference, and calls the functions.
  \<open>NaN\<close> is the one value that is not strictly equal to itself.
\<close>

datatype jsval =
    JUndefined
  | JNull
  | JBool bool
  | JNum rat
  | JNaN
  | JStr string
  | JRef nat
  | JFun nat

definition strict_eq :: "jsval \<Rightarrow> jsval \<Rightarrow> bool" where
  "strict_eq a b = (a = b \<and> a \<noteq> JNaN)"

text \<open>
  A plain object is the list of its own enumerable entries in the order \<open>Object.keys\<close>
  lists them. Reading a key that is not there gives \<open>undefined\<close>; assigning replaces
  the value in place or appends the key.
\<close>

type_synonym obj = "(string \<times> jsval) list"

definition get_prop :: "obj \<Rightarrow> string \<Rightarrow> jsval" where
  "get_prop ob k = (case map_of ob k of None \<Rightarrow> JUndefined | Some v \<Rightarrow> v)"

definition object_keys :: "obj \<Rightarrow> string list" where
  "object_keys ob = map fst ob"

definition set_prop :: "obj \<Rightarrow> string \<Rightarrow> jsval \<Rightarrow> obj" where
  "set_prop ob k v = AList.update k v ob"

section \<open>Settings extractor (scene/layer/index.jsx, getLayerSettings)\<close>

text \<open>The keys of \<open>layerSettingsProps\<close>, in the order of the object literal.\<close>

definition layerSettingsProps :: "string list" where
  "layerSettingsProps =
    [''id'', ''url'', ''portalItem'', ''layerType'', ''visible'', ''definitionExpression'',
     ''renderer'', ''rendererJson'', ''labelingInfo'', ''labelsVisible'', ''outFields'',
     ''elevationInfo'', ''geometryType'', ''hasZ'', ''fields'', ''objectIdField'',
     ''objectIdFilter'', ''selectable'', ''relatedLayer'', ''spatialReference'', ''opacity'',
     ''minScale'', ''maxScale'', ''featureReduction'', ''source'', ''legendEnabled'', ''title'',
     ''maskingGeometry'', ''popupEnabled'', ''popupTemplate'', ''onLoad'']"

text \<open>
  The two \<open>filter\<close> calls and the \<open>forEach\<close> that assigns into the fresh object
  \<open>settings\<close>, in the order of the source.
\<close>

definition getLayerSettings :: "obj \<Rightarrow> obj" where
  "getLayerSettings props =
     fold (\<lambda>key settings. set_prop settings key (get_prop props key))
       (filter (\<lambda>key. \<not> strict_eq (get_prop props key) JNull \<and>
                      \<not> strict_eq (get_prop props key) JUndefined)
          (filter (\<lambda>key. \<not> strict_eq (get_prop props ''layerType'') (JStr ''point-cloud'') \<or>
                         key \<noteq> ''opacity'')
             layerSettingsProps))
       []"

section \<open>Highlight resolver (getOIDfromGlobalId, getHighlightOIDs)\<close>

text \<open>
  A highlight id is a string or a number (a row id, so an integer). \<open>RegExp.test\<close>
  converts its argument to a string first: a string is taken as it is, an integer is
  written in decimal with a leading minus sign when negative (the form JavaScript uses
  for integers below \<open>10^21\<close> in magnitude).
\<close>

datatype mystery_id = IdStr string | IdNum int

definition id_value :: "mystery_id \<Rightarrow> jsval" where
  "id_value m = (case m of IdStr s \<Rightarrow> JStr s | IdNum n \<Rightarrow> JNum (of_int n))"

definition digit_char :: "nat \<Rightarrow> char" where
  "digit_char d = ''0123456789'' ! d"

fun digits :: "nat \<Rightarrow> string" where
  "digits n = (if n < 10 then [digit_char n] else digits (n div 10) @ [digit_char (n mod 10)])"

declare digits.simps [simp del]

definition to_string :: "mystery_id \<Rightarrow> string" where
  "to_string m =
     (case m of
        IdStr s \<Rightarrow> s
      | IdNum n \<Rightarrow> if n < 0 then CHR ''-'' # digits (nat (- n)) else digits (nat n))"

text \<open>
  The regular expression of \<open>getHighlightOIDs\<close> is a sequence of character classes, each
  repeated a fixed number of times, anchored at both ends of the string. Under the flag
  \<open>i\<close> a class of letters holds both cases.
\<close>

fun matches :: "(char list \<times> nat) list \<Rightarrow> string \<Rightarrow> bool" where
  "matches [] s = (s = [])"
| "matches ((cls, 0) # r) s = matches r s"
| "matches ((cls, Suc n) # r) [] = False"
| "matches ((cls, Suc n) # r) (c # s) = (c \<in> set cls \<and> matches ((cls, n) # r) s)"

definition hex_class :: "char list" where
  "hex_class = ''0123456789abcdefABCDEF''"

definition dash_class :: "char list" where
  "dash_class = ''-''"

definition version_class :: "char list" where
  "version_class = ''12345''"

definition variant_class :: "char list" where
  "variant_class = ''89abAB''"

definition uuid_regex :: "(char list \<times> nat) list" where
  "uuid_regex =
    [(hex_class, 8), (dash_class, 1), (hex_class, 4), (dash_class, 1),
     (version_class, 1), (hex_class, 3), (dash_class, 1),
     (variant_class, 1), (hex_class, 3), (dash_class, 1), (hex_class, 12)]"

definition regex_test :: "mystery_id \<Rightarrow> bool" where
  "regex_test mysteryId = matches uuid_regex (to_string mysteryId)"

text \<open>
  A graphic of the layer view's controller, and the layer view itself: its loaded
  graphics, the object id field of its layer, and whether it has a \<open>highlight\<close> method.
\<close>

record graphic =
  attributes :: obj

record layer_view =
  lv_ref :: nat
  graphics :: "graphic list"
  objectIdField :: string
  has_highlight :: bool

definition getOIDfromGlobalId :: "layer_view \<Rightarrow> jsval \<Rightarrow> jsval" where
  "getOIDfromGlobalId lv GlobalID =
     (case find (\<lambda>e. strict_eq (get_prop (attributes e) ''GlobalID'') GlobalID) (graphics lv) of
        None \<Rightarrow> JNull
      | Some g \<Rightarrow> get_prop (attributes g) (objectIdField lv))"

definition getHighlightOIDs :: "layer_view \<Rightarrow> mystery_id list \<Rightarrow> jsval list" where
  "getHighlightOIDs lv mysteryIds =
     map (\<lambda>mysteryId. if regex_test mysteryId
                       then getOIDfromGlobalId lv (id_value mysteryId)
                       else id_value mysteryId)
       mysteryIds"

text \<open>
  The canonical UUID shape in the words of the specification: five groups of 8, 4, 4, 4
  and 12 hexadecimal digits of either case, separated by dashes; the third group starts
  with the version nibble 1 to 5, the fourth with the variant nibble 8, 9, a or b. A
  number has no such shape.
\<close>

definition canonical_uuid_shape :: "string \<Rightarrow> bool" where
  "canonical_uuid_shape s =
     (\<exists>g1 g2 g3 g4 g5.
        s = g1 @ ''-'' @ g2 @ ''-'' @ g3 @ ''-'' @ g4 @ ''-'' @ g5 \<and>
        length g1 = 8 \<and> length g2 = 4 \<and> length g3 = 4 \<and> length g4 = 4 \<and> length g5 = 12 \<and>
        set (g1 @ g2 @ g3 @ g4 @ g5) \<subseteq> set ''0123456789abcdefABCDEF'' \<and>
        hd g3 \<in> set ''12345'' \<and> hd g4 \<in> set ''89abAB'')"

definition id_has_uuid_shape :: "mystery_id \<Rightarrow> bool" where
  "id_has_uuid_shape m = (case m of IdStr s \<Rightarrow> canonical_uuid_shape s | IdNum n \<Rightarrow> False)"

section \<open>The Layer component (scene/layer/index.jsx)\<close>

text \<open>
  A layer of the map: its identity, its \<open>id\<close>, and whether \<open>layer.source.removeAll\<close>
  exists. The view holds the items of \<open>view.map.layers\<close> as they are when the component
  mounts.
\<close>

record handle =
  layer_ref :: nat
  layer_id :: jsval
  source_removeAll :: bool

record map_view =
  items :: "handle list"

text \<open>
  The props of the component: \<open>own\<close> are its entries as \<open>Object.keys\<close> and \<open>props[key]\<close>
  see them; \<open>view\<close>, \<open>highlight\<close> and \<open>selection\<close> are the contents of the objects behind
  those three props (\<open>None\<close> when the prop is null or undefined).
\<close>

record layer_props =
  own :: obj
  view :: "map_view option"
  highlight :: "mystery_id list option"
  selection :: "jsval list option"

text \<open>
  \<open>this.state\<close> and the instance. A highlight set is the handle the engine returned for
  it; \<open>None\<close> in \<open>highlights\<close> stands for every falsy value the expression in
  \<open>getDerivedStateFromProps\<close> can leave there (null, undefined, 0, false).
\<close>

record layer_state =
  layer :: "handle option"
  layerView :: "layer_view option"
  highlights :: "nat option"

record component =
  state :: layer_state
  componentIsMounted :: bool

text \<open>
  The calls the component makes on its collaborators, in the order it makes them.
  \<open>MapAdd\<close> and \<open>MapRemove\<close> are \<open>view.map.add\<close> and \<open>view.map.remove\<close> of \<open>load\<close>;
  \<open>LayersRemove\<close> is \<open>view.map.layers.remove\<close> of \<open>componentWillUnmount\<close>; \<open>Highlight\<close>
  carries the handle the engine returned. \<open>Unmounted\<close> marks the instant at which React
  runs \<open>componentWillUnmount\<close> while \<open>load\<close> is suspended.
\<close>

datatype event =
    LoadLayer obj
  | MapAdd handle
  | WhenLayerView handle
  | MapRemove handle
  | LayerWhen handle
  | ApplyUpdates obj obj "handle option" "layer_view option"
  | Highlight layer_view "jsval list" nat
  | HighlightRemove nat
  | SetStateHighlights nat
  | SetStateLayer handle layer_view
  | OnLoad handle
  | Refresh layer_view
  | SourceRemoveAll handle
  | LayersRemove handle
  | Unmounted

datatype error = TypeError | Rejection | EngineError

datatype outcome = Returned | Threw error

datatype 'a settled = Resolved 'a | Rejected

subsection \<open>Highlight sets\<close>

text \<open>
  The engine's side of highlighting: the highlight sets that are live, and the handle it
  returns for the next one. \<open>engine_run\<close> lists the engine's state before the first call
  and after each call.
\<close>

record engine =
  next_handle :: nat
  live :: "nat list"

fun engine_step :: "engine \<Rightarrow> event \<Rightarrow> engine" where
  "engine_step e (Highlight lv ids h) =
     e\<lparr>next_handle := Suc (next_handle e), live := live e @ [h]\<rparr>"
| "engine_step e (HighlightRemove h) = e\<lparr>live := removeAll h (live e)\<rparr>"
| "engine_step e _ = e"

fun engine_run :: "engine \<Rightarrow> event list \<Rightarrow> engine list" where
  "engine_run e [] = [e]"
| "engine_run e (ev # evs) = e # engine_run (engine_step e ev) evs"

text \<open>
  \<open>getDerivedStateFromProps\<close>: first the object literal with its chain of \<open>&&\<close>, which
  calls \<open>state.layerView.highlight\<close> when every operand before it is truthy; then the
  \<open>remove\<close> of the highlight set of the state. React merges the returned object into the
  state.
\<close>

definition getDerivedStateFromProps ::
  "layer_props \<Rightarrow> layer_state \<Rightarrow> engine \<Rightarrow> layer_state \<times> event list" where
  "getDerivedStateFromProps props st e =
     (let installed =
            (case highlight props of
               None \<Rightarrow> (None, [])
             | Some ids \<Rightarrow>
                 if ids = [] then (None, [])
                 else (case layerView st of
                         None \<Rightarrow> (None, [])
                       | Some lv \<Rightarrow>
                           if \<not> has_highlight lv then (None, [])
                           else (Some (next_handle e),
                                 [Highlight lv (getHighlightOIDs lv ids) (next_handle e)])));
          released = (case highlights st of None \<Rightarrow> [] | Some h \<Rightarrow> [HighlightRemove h])
      in (st\<lparr>highlights := fst installed\<rparr>, snd installed @ released))"

text \<open>
  A sequence of renders. Each render comes with the props of that render and the layer
  view the state holds by then (it is set by \<open>load\<close> between two renders); the result
  lists the state and the engine after each render.
\<close>

fun renders ::
  "(layer_props \<times> layer_view option) list \<Rightarrow> layer_state \<Rightarrow> engine \<Rightarrow>
     (layer_state \<times> engine) list" where
  "renders [] st e = []"
| "renders ((props, lv) # rest) st e =
     (case getDerivedStateFromProps props (st\<lparr>layerView := lv\<rparr>) e of
        (st', evs) \<Rightarrow>
          (st', last (engine_run e evs)) # renders rest st' (last (engine_run e evs)))"

text \<open>
  The state and the engine agree: the live highlight sets are the one of the state, if
  any, and the engine has handed out every live handle already.
\<close>

definition one_live :: "layer_state \<Rightarrow> engine \<Rightarrow> bool" where
  "one_live st e =
     (live e = (case highlights st of None \<Rightarrow> [] | Some h \<Rightarrow> [h]) \<and>
      list_all (\<lambda>h. h < next_handle e) (live e))"

subsection \<open>Update and unmount\<close>

text \<open>
  \<open>componentDidUpdate\<close>: nothing without a layer in the state; nothing when \<open>find\<close> over
  the keys of the previous props returns a falsy value (no key differs, or the first key
  that differs is the empty string); otherwise the refresh of the layer view when the
  \<open>refresh\<close> prop differs, and the call of \<open>applyUpdates\<close>, whose promise is awaited.
\<close>

definition componentDidUpdate ::
  "unit settled \<Rightarrow> layer_props \<Rightarrow> layer_props \<Rightarrow> component \<Rightarrow> event list \<times> outcome" where
  "componentDidUpdate applied prevProps props this =
     (case layer (state this) of
        None \<Rightarrow> ([], Returned)
      | Some lyr \<Rightarrow>
         (case find (\<lambda>key. \<not> strict_eq (get_prop (own prevProps) key) (get_prop (own props) key))
                 (object_keys (own prevProps)) of
            None \<Rightarrow> ([], Returned)
          | Some key \<Rightarrow>
              if key = [] then ([], Returned)
              else
                (let call = ApplyUpdates (own prevProps) (own props) (layer (state this))
                              (layerView (state this));
                     settle = (case applied of
                                 Resolved _ \<Rightarrow> Returned
                               | Rejected \<Rightarrow> Threw Rejection)
                 in if \<not> strict_eq (get_prop (own props) ''refresh'')
                                    (get_prop (own prevProps) ''refresh'')
                    then (case layerView (state this) of
                            None \<Rightarrow> ([], Threw TypeError)
                          | Some lv \<Rightarrow> ([Refresh lv, call], settle))
                    else ([call], settle))))"

definition constructor :: component where
  "constructor =
     \<lparr>state = \<lparr>layer = None, layerView = None, highlights = None\<rparr>,
      componentIsMounted = False\<rparr>"

definition componentWillUnmount ::
  "layer_props \<Rightarrow> component \<Rightarrow> component \<times> event list \<times> outcome" where
  "componentWillUnmount props this =
     (let this1 = this\<lparr>componentIsMounted := False\<rparr> in
      case layer (state this1) of
        None \<Rightarrow> (this1, [], Returned)
      | Some lyr \<Rightarrow>
          (let evs = (if source_removeAll lyr then [SourceRemoveAll lyr] else []) in
           case view props of
             None \<Rightarrow> (this1, evs, Threw TypeError)
           | Some vw \<Rightarrow> (this1, evs @ [LayersRemove lyr], Returned)))"

subsection \<open>setState\<close>

text \<open>
  \<open>load\<close> calls \<open>this.setState\<close> after an await, outside of any React handler: React
  merges the update into the state and renders at once, before \<open>setState\<close> returns. The
  render runs \<open>getDerivedStateFromProps\<close> on the current props and the merged state,
  and then \<open>componentDidUpdate\<close> with the props unchanged (its body runs up to its await;
  how its promise settles is not observed). On a component that React has unmounted
  \<open>setState\<close> does nothing. The component is unmounted exactly when
  \<open>componentWillUnmount\<close> has cleared \<open>componentIsMounted\<close>.
\<close>

definition rerender :: "layer_props \<Rightarrow> component \<Rightarrow> engine \<Rightarrow> component \<times> event list" where
  "rerender props this e =
     (case getDerivedStateFromProps props (state this) e of
        (st', evs) \<Rightarrow>
          (this\<lparr>state := st'\<rparr>,
           evs @ fst (componentDidUpdate (Resolved ()) props props (this\<lparr>state := st'\<rparr>))))"

definition setState ::
  "layer_props \<Rightarrow> (layer_state \<Rightarrow> layer_state) \<Rightarrow> component \<Rightarrow> engine \<Rightarrow>
     component \<times> event list \<times> engine" where
  "setState props upd this e =
     (if \<not> componentIsMounted this then (this, [], e)
      else (case rerender props (this\<lparr>state := upd (state this)\<rparr>) e of
              (this', evs) \<Rightarrow> (this', evs, last (engine_run e evs))))"

subsection \<open>The mount sequence\<close>

text \<open>
  What the environment does during one run of \<open>load\<close>: how each awaited promise settles,
  the await (if any) during which React unmounts the component, \<open>this.props\<close> as it
  stands at each await, and the engine's highlight sets as they are when \<open>load\<close> resumes
  from its last await.
\<close>

datatype await_point = AwaitLoader | AwaitLayerView | AwaitWhen | AwaitApplyUpdates

record schedule =
  loadLayer_result :: "handle option settled"
  whenLayerView_result :: "layer_view settled"
  when_result :: "unit settled"
  applyUpdates_result :: "unit settled"
  engine_at_ready :: engine
  unmount_at :: "await_point option"
  props_at :: "await_point \<Rightarrow> layer_props"

text \<open>
  An await of \<open>load\<close>: when the schedule unmounts the component here,
  \<open>componentWillUnmount\<close> runs before \<open>load\<close> resumes.
\<close>

definition suspend :: "schedule \<Rightarrow> await_point \<Rightarrow> component \<Rightarrow> component \<times> event list" where
  "suspend sch pt this =
     (if unmount_at sch = Some pt
      then (case componentWillUnmount (props_at sch pt) this of
              (this', evs, _) \<Rightarrow> (this', Unmounted # evs))
      else (this, []))"

text \<open>
  Lines 173 to 175: a non-empty selection is highlighted through \<open>this.state.layerView\<close>
  (a TypeError when the state has no layer view, or the layer view no \<open>highlight\<close>), and
  the set goes into the state with \<open>setState\<close>.
\<close>

definition highlight_selection ::
  "layer_props \<Rightarrow> component \<Rightarrow> engine \<Rightarrow> component \<times> event list \<times> engine \<times> outcome" where
  "highlight_selection props this e =
     (case selection props of
        None \<Rightarrow> (this, [], e, Returned)
      | Some sel \<Rightarrow>
          if sel = [] then (this, [], e, Returned)
          else (case layerView (state this) of
                  None \<Rightarrow> (this, [], e, Threw TypeError)
                | Some slv \<Rightarrow>
                    if \<not> has_highlight slv then (this, [], e, Threw TypeError)
                    else (case setState props (\<lambda>st. st\<lparr>highlights := Some (next_handle e)\<rparr>) this
                                 (engine_step e (Highlight slv sel (next_handle e))) of
                            (this', evs, e') \<Rightarrow>
                              (this',
                               Highlight slv sel (next_handle e) #
                                 SetStateHighlights (next_handle e) # evs,
                               e', Returned))))"

text \<open>
  Lines 173 to 182, after the last await: the highlight of the selection, the
  \<open>setState\<close> of the layer and the layer view, and the call of \<open>this.props.onLoad\<close>, a
  TypeError when that prop is not a function.
\<close>

definition load_finish ::
  "schedule \<Rightarrow> handle \<Rightarrow> layer_view \<Rightarrow> component \<Rightarrow> component \<times> event list \<times> outcome" where
  "load_finish sch lyr lv this =
     (let props = props_at sch AwaitApplyUpdates in
      case highlight_selection props this (engine_at_ready sch) of
        (this1, evs1, e1, Threw err) \<Rightarrow> (this1, evs1, Threw err)
      | (this1, evs1, e1, Returned) \<Rightarrow>
          (case setState props (\<lambda>st. st\<lparr>layer := Some lyr, layerView := Some lv\<rparr>) this1 e1 of
             (this2, evs2, e2) \<Rightarrow>
               (case get_prop (own props) ''onLoad'' of
                  JFun f \<Rightarrow> (this2, evs1 @ SetStateLayer lyr lv # evs2 @ [OnLoad lyr], Returned)
                | _ \<Rightarrow> (this2, evs1 @ SetStateLayer lyr lv # evs2, Threw TypeError))))"

text \<open>
  \<open>load\<close> in three parts, cut at its two checks of \<open>componentIsMounted\<close>. \<open>load_ready\<close>
  is lines 170 to 182: \<open>await layer.when()\<close>, \<open>await applyUpdates(layerSettings,
  this.props, this.state.layer, this.state.layerView)\<close> and the last stretch above.
\<close>

definition load_ready ::
  "schedule \<Rightarrow> obj \<Rightarrow> handle \<Rightarrow> layer_view \<Rightarrow> component \<Rightarrow>
     component \<times> event list \<times> outcome" where
  "load_ready sch layerSettings lyr lv this =
     (case suspend sch AwaitWhen this of (this1, u1) \<Rightarrow>
      case when_result sch of
        Rejected \<Rightarrow> (this1, LayerWhen lyr # u1, Threw Rejection)
      | Resolved _ \<Rightarrow>
         (let ev_apply = ApplyUpdates layerSettings (own (props_at sch AwaitWhen))
                           (layer (state this1)) (layerView (state this1));
              pre = LayerWhen lyr # u1 @ [ev_apply]
          in case suspend sch AwaitApplyUpdates this1 of (this2, u2) \<Rightarrow>
             case applyUpdates_result sch of
               Rejected \<Rightarrow> (this2, pre @ u2, Threw Rejection)
             | Resolved _ \<Rightarrow>
                (case load_finish sch lyr lv this2 of
                   (this3, evs, out) \<Rightarrow> (this3, pre @ u2 @ evs, out))))"

text \<open>
  Lines 157 to 168: the first check, \<open>view.map.add(layer)\<close>, \<open>await
  view.whenLayerView(layer)\<close> and the second check with its \<open>view.map.remove(layer)\<close>.
\<close>

definition load_attach ::
  "schedule \<Rightarrow> obj \<Rightarrow> map_view \<Rightarrow> handle option \<Rightarrow> component \<Rightarrow>
     component \<times> event list \<times> outcome" where
  "load_attach sch layerSettings vw lyr_opt this =
     (if \<not> componentIsMounted this \<or> lyr_opt = None then (this, [], Returned)
      else (case lyr_opt of
        None \<Rightarrow> (this, [], Returned)
      | Some lyr \<Rightarrow>
         (case suspend sch AwaitLayerView this of (this1, u1) \<Rightarrow>
          let pre = [MapAdd lyr, WhenLayerView lyr] @ u1 in
          case whenLayerView_result sch of
            Rejected \<Rightarrow> (this1, pre, Threw Rejection)
          | Resolved lv \<Rightarrow>
              if \<not> componentIsMounted this1 then (this1, pre @ [MapRemove lyr], Returned)
              else (case load_ready sch layerSettings lyr lv this1 of
                      (this2, evs, out) \<Rightarrow> (this2, pre @ evs, out)))))"

text \<open>
  Lines 151 to 155: no view, no work; a layer of the map with the id of the settings is
  taken as it is, with no await; otherwise \<open>loadLayer\<close> is called and awaited.
\<close>

definition load ::
  "schedule \<Rightarrow> map_view option \<Rightarrow> obj \<Rightarrow> component \<Rightarrow> component \<times> event list \<times> outcome" where
  "load sch view_opt layerSettings this =
     (case view_opt of
        None \<Rightarrow> (this, [], Returned)
      | Some vw \<Rightarrow>
         (case find (\<lambda>l. strict_eq (layer_id l) (get_prop layerSettings ''id'')) (items vw) of
            Some existingLayer \<Rightarrow> load_attach sch layerSettings vw (Some existingLayer) this
          | None \<Rightarrow>
             (case suspend sch AwaitLoader this of (this1, u1) \<Rightarrow>
              case loadLayer_result sch of
                Rejected \<Rightarrow> (this1, LoadLayer layerSettings # u1, Threw Rejection)
              | Resolved lyr_opt \<Rightarrow>
                  (case load_attach sch layerSettings vw lyr_opt this1 of
                     (this2, evs, out) \<Rightarrow> (this2, LoadLayer layerSettings # u1 @ evs, out)))))"

definition componentDidMount ::
  "schedule \<Rightarrow> layer_props \<Rightarrow> component \<Rightarrow> component \<times> event list \<times> outcome" where
  "componentDidMount sch props this =
     load sch (view props) (getLayerSettings (own props)) (this\<lparr>componentIsMounted := True\<rparr>)"

text \<open>The calls that load, add or remove the layer.\<close>

definition is_layer_call :: "event \<Rightarrow> bool" where
  "is_layer_call ev =
     (case ev of LoadLayer s \<Rightarrow> True | MapAdd l \<Rightarrow> True | MapRemove l \<Rightarrow> True | _ \<Rightarrow> False)"

definition is_map_add :: "event \<Rightarrow> bool" where
  "is_map_add ev = (case ev of MapAdd l \<Rightarrow> True | _ \<Rightarrow> False)"

definition is_map_remove :: "event \<Rightarrow> bool" where
  "is_map_remove ev = (case ev of MapRemove l \<Rightarrow> True | _ \<Rightarrow> False)"

definition is_apply_updates :: "event \<Rightarrow> bool" where
  "is_apply_updates ev = (case ev of ApplyUpdates a b c d \<Rightarrow> True | _ \<Rightarrow> False)"

section \<open>The DrawingTool component (tools/drawing-tool/index.js)\<close>

text \<open>
  The instance fields \<open>onCreate\<close>, \<open>onUpdate\<close>, \<open>model\<close> and \<open>layer\<close>: each is undefined
  until \<open>componentDidMount\<close> resumes from its await of the engine's modules and sets it.
\<close>

record drawing_tool =
  onCreate :: "nat option"
  onUpdate :: "nat option"
  model :: "nat option"
  tool_layer :: "nat option"

datatype sketch_event =
    SubscriptionRemove nat
  | ModelComplete nat
  | ModelCancel nat
  | ModelReset nat
  | ModelDestroy nat
  | ViewMapRemove nat

definition drawing_tool_new :: drawing_tool where
  "drawing_tool_new = \<lparr>onCreate = None, onUpdate = None, model = None, tool_layer = None\<rparr>"

text \<open>
  Statements that run one after the other with no \<open>try\<close> around them: a call that throws
  is still made, and ends the sequence. Which calls throw is the engine's business.
\<close>

fun run_calls :: "(sketch_event \<Rightarrow> bool) \<Rightarrow> sketch_event list \<Rightarrow> sketch_event list \<times> outcome" where
  "run_calls throws [] = ([], Returned)"
| "run_calls throws (call # rest) =
     (if throws call then ([call], Threw EngineError)
      else (case run_calls throws rest of (evs, out) \<Rightarrow> (call # evs, out)))"

text \<open>
  \<open>componentWillUnmount\<close> of the tool: four statements, each under the test of its own
  field, the third with the four calls on the model.
\<close>

definition tool_componentWillUnmount ::
  "(sketch_event \<Rightarrow> bool) \<Rightarrow> drawing_tool \<Rightarrow> sketch_event list \<times> outcome" where
  "tool_componentWillUnmount throws this =
     run_calls throws
       ((case onCreate this of None \<Rightarrow> [] | Some sub \<Rightarrow> [SubscriptionRemove sub]) @
        (case onUpdate this of None \<Rightarrow> [] | Some sub \<Rightarrow> [SubscriptionRemove sub]) @
        (case model this of
           None \<Rightarrow> []
         | Some m \<Rightarrow> [ModelComplete m, ModelCancel m, ModelReset m, ModelDestroy m]) @
        (case tool_layer this of None \<Rightarrow> [] | Some l \<Rightarrow> [ViewMapRemove l]))"

section \<open>Concrete inputs\<close>

definition example_props :: obj where
  "example_props =
    [(''id'', JStr ''trees''), (''layerType'', JStr ''point-cloud''), (''opacity'', JNum 1),
     (''url'', JNull), (''visible'', JBool True), (''refresh'', JNum 3)]"

definition example_uuid :: string where
  "example_uuid = ''3fa85f64-5717-4562-b3fc-2c963f66afa6''"

definition example_layer_view :: layer_view where
  "example_layer_view =
     \<lparr>lv_ref = 5,
      graphics = [\<lparr>attributes = [(''GlobalID'', JStr example_uuid), (''OBJECTID'', JNum 7)]\<rparr>],
      objectIdField = ''OBJECTID'',
      has_highlight = True\<rparr>"

definition example_handle :: handle where
  "example_handle = \<lparr>layer_ref = 1, layer_id = JStr ''trees'', source_removeAll = False\<rparr>"

definition highlighted_state :: layer_state where
  "highlighted_state =
     \<lparr>layer = Some example_handle, layerView = Some example_layer_view, highlights = Some 0\<rparr>"

definition highlighted_engine :: engine where
  "highlighted_engine = \<lparr>next_handle = 1, live = [0]\<rparr>"

definition highlight_props :: "mystery_id list option \<Rightarrow> layer_props" where
  "highlight_props ids =
     \<lparr>own = [(''id'', JStr ''trees''), (''layerType'', JStr ''feature''), (''highlight'', JRef 9)],
      view = Some \<lparr>items = []\<rparr>,
      highlight = ids,
      selection = None\<rparr>"

text \<open>
  Props of a mount: \<open>onLoad\<close> is a function, as the default props make it when the
  caller gives none.
\<close>

definition mount_props :: "map_view \<Rightarrow> jsval list option \<Rightarrow> layer_props" where
  "mount_props vw sel =
     \<lparr>own = [(''id'', JStr ''trees''), (''layerType'', JStr ''feature''), (''url'', JNull),
             (''visible'', JBool True), (''onLoad'', JFun 30), (''children'', JRef 20)],
      view = Some vw,
      highlight = Some [],
      selection = sel\<rparr>"

definition mount_settings :: obj where
  "mount_settings =
     [(''id'', JStr ''trees''), (''layerType'', JStr ''feature''), (''visible'', JBool True),
      (''onLoad'', JFun 30)]"

definition mount_schedule :: "await_point option \<Rightarrow> layer_props \<Rightarrow> schedule" where
  "mount_schedule unmount props =
     \<lparr>loadLayer_result = Resolved (Some example_handle),
      whenLayerView_result = Resolved example_layer_view,
      when_result = Resolved (),
      applyUpdates_result = Resolved (),
      engine_at_ready = \<lparr>next_handle = 0, live = []\<rparr>,
      unmount_at = unmount,
      props_at = (\<lambda>pt. props)\<rparr>"

text \<open>
  Props of a remount on a map that holds the layer, with a highlight prop of one id.
\<close>

definition remount_props :: layer_props where
  "remount_props =
     \<lparr>own = [(''id'', JStr ''trees''), (''layerType'', JStr ''feature''),
             (''onLoad'', JFun 30), (''highlight'', JRef 9)],
      view = Some \<lparr>items = [example_handle]\<rparr>,
      highlight = Some [IdNum 42],
      selection = None\<rparr>"

definition ready_component :: component where
  "ready_component =
     \<lparr>state = \<lparr>layer = Some example_handle, layerView = Some example_layer_view,
                highlights = None\<rparr>,
      componentIsMounted = True\<rparr>"

definition children_props :: "nat \<Rightarrow> layer_props" where
  "children_props r =
     \<lparr>own = [(''id'', JStr ''trees''), (''layerType'', JStr ''feature''), (''refresh'', JNull),
             (''children'', JRef r)],
      view = Some \<lparr>items = [example_handle]\<rparr>,
      highlight = Some [],
      selection = None\<rparr>"

definition mounted_tool :: drawing_tool where
  "mounted_tool = \<lparr>onCreate = Some 1, onUpdate = Some 2, model = Some 3, tool_layer = Some 4\<rparr>"

section \<open>Properties of the settings extractor\<close>

lemma strict_eq_JNull [simp]: "strict_eq v JNull = (v = JNull)"
  by (auto simp: strict_eq_def)

lemma strict_eq_JUndefined [simp]: "strict_eq v JUndefined = (v = JUndefined)"
  by (auto simp: strict_eq_def)

lemma strict_eq_JStr [simp]: "strict_eq v (JStr s) = (v = JStr s)"
  by (auto simp: strict_eq_def)

lemma map_of_fold_set_prop:
  "map_of (fold (\<lambda>key settings. set_prop settings key (f key)) ks s0) k =
     (if k \<in> set ks then Some (f k) else map_of s0 k)"
  by (induction ks arbitrary: s0) (auto simp: set_prop_def update_conv')

lemma keys_fold_set_prop:
  "fst ` set (fold (\<lambda>key settings. set_prop settings key (f key)) ks s0) =
     set ks \<union> fst ` set s0"
  by (induction ks arbitrary: s0) (auto simp: set_prop_def dom_update)

lemma distinct_fold_set_prop:
  "distinct (map fst s0) \<Longrightarrow>
   distinct (map fst (fold (\<lambda>key settings. set_prop settings key (f key)) ks s0))"
  by (induction ks arbitrary: s0) (auto simp: set_prop_def distinct_update)

text \<open>
  C7. For every props object the settings extractor returns an object whose keys are
  exactly the recognized keys whose value in the props is neither null nor undefined,
  without \<open>opacity\<close> when \<open>layerType\<close> is \<open>point-cloud\<close>; each key carries the value the
  props have for it, and no key occurs twice. The extractor is a total function of the
  props alone: it has no error case and reads no other state.
\<close>

theorem getLayerSettings_exact:
  "fst ` set (getLayerSettings props) =
     {k \<in> set layerSettingsProps.
        get_prop props k \<noteq> JNull \<and> get_prop props k \<noteq> JUndefined \<and>
        \<not> (get_prop props ''layerType'' = JStr ''point-cloud'' \<and> k = ''opacity'')}
   \<and> (\<forall>k \<in> fst ` set (getLayerSettings props).
         get_prop (getLayerSettings props) k = get_prop props k)
   \<and> distinct (map fst (getLayerSettings props))"
proof (intro conjI ballI)
  show "fst ` set (getLayerSettings props) =
     {k \<in> set layerSettingsProps.
        get_prop props k \<noteq> JNull \<and> get_prop props k \<noteq> JUndefined \<and>
        \<not> (get_prop props ''layerType'' = JStr ''point-cloud'' \<and> k = ''opacity'')}"
    unfolding getLayerSettings_def keys_fold_set_prop by auto
next
  fix k
  assume "k \<in> fst ` set (getLayerSettings props)"
  then have "k \<in> set (filter (\<lambda>key. \<not> strict_eq (get_prop props key) JNull \<and>
                      \<not> strict_eq (get_prop props key) JUndefined)
          (filter (\<lambda>key. \<not> strict_eq (get_prop props ''layerType'') (JStr ''point-cloud'') \<or>
                         key \<noteq> ''opacity'')
             layerSettingsProps))"
    unfolding getLayerSettings_def keys_fold_set_prop by simp
  then show "get_prop (getLayerSettings props) k = get_prop props k"
    unfolding getLayerSettings_def get_prop_def [of "fold _ _ _"] map_of_fold_set_prop
    by simp
next
  show "distinct (map fst (getLayerSettings props))"
    unfolding getLayerSettings_def by (rule distinct_fold_set_prop) simp
qed

text \<open>
  The extractor on a point-cloud layer with an opacity, a null url and a prop that is
  not recognized.
\<close>

theorem getLayerSettings_exact_witness:
  "getLayerSettings example_props =
     [(''id'', JStr ''trees''), (''layerType'', JStr ''point-cloud''), (''visible'', JBool True)]
   \<and> ''opacity'' \<notin> fst ` set (getLayerSettings example_props)
   \<and> get_prop (getLayerSettings example_props) ''id'' = get_prop example_props ''id''"
proof -
  have ev: "getLayerSettings example_props =
     [(''id'', JStr ''trees''), (''layerType'', JStr ''point-cloud''), (''visible'', JBool True)]"
    by (simp add: getLayerSettings_def example_props_def layerSettingsProps_def get_prop_def
        set_prop_def)
  have "''id'' \<in> fst ` set (getLayerSettings example_props)"
    unfolding ev by simp
  with getLayerSettings_exact [of example_props]
  have "get_prop (getLayerSettings example_props) ''id'' = get_prop example_props ''id''"
    by blast
  with ev show ?thesis by simp
qed

section \<open>Properties of the highlight resolver\<close>

subsection \<open>The regular expression and the canonical shape\<close>

lemma matches_count:
  "matches ((cls, n) # r) s =
     (n \<le> length s \<and> set (take n s) \<subseteq> set cls \<and> matches r (drop n s))"
proof (induction n arbitrary: s)
  case 0
  show ?case by simp
next
  case (Suc n)
  show ?case by (cases s) (auto simp: Suc)
qed

lemma matches_length: "matches r s \<Longrightarrow> length s = sum_list (map snd r)"
  by (induction r s rule: matches.induct) auto

lemma take_one_drop:
  "n < length s \<Longrightarrow> (set (take (Suc 0) (drop n s)) \<subseteq> A) = (s ! n \<in> A)"
  by (simp add: take_Suc hd_drop_conv_nth)

lemma uuid_regex_length: "matches uuid_regex s \<Longrightarrow> length s = 36"
  by (drule matches_length) (simp add: uuid_regex_def)

lemma uuid_regex_facts_len:
  assumes "length s = 36"
  shows "matches uuid_regex s =
    (set (take 8 s) \<subseteq> set hex_class \<and> s ! 8 = CHR ''-'' \<and>
     set (take 4 (drop 9 s)) \<subseteq> set hex_class \<and> s ! 13 = CHR ''-'' \<and>
     s ! 14 \<in> set version_class \<and> set (take 3 (drop 15 s)) \<subseteq> set hex_class \<and>
     s ! 18 = CHR ''-'' \<and>
     s ! 19 \<in> set variant_class \<and> set (take 3 (drop 20 s)) \<subseteq> set hex_class \<and>
     s ! 23 = CHR ''-'' \<and>
     set (drop 24 s) \<subseteq> set hex_class)"
  unfolding uuid_regex_def matches_count matches.simps drop_drop
  using assms by (simp add: take_one_drop dash_class_def)

lemma canonical_uuid_shape_classes:
  "canonical_uuid_shape s =
     (\<exists>g1 g2 g3 g4 g5.
        s = g1 @ ''-'' @ g2 @ ''-'' @ g3 @ ''-'' @ g4 @ ''-'' @ g5 \<and>
        length g1 = 8 \<and> length g2 = 4 \<and> length g3 = 4 \<and> length g4 = 4 \<and> length g5 = 12 \<and>
        set (g1 @ g2 @ g3 @ g4 @ g5) \<subseteq> set hex_class \<and>
        hd g3 \<in> set version_class \<and> hd g4 \<in> set variant_class)"
  unfolding canonical_uuid_shape_def hex_class_def version_class_def variant_class_def ..

lemma version_variant_hex:
  "set version_class \<subseteq> set hex_class" "set variant_class \<subseteq> set hex_class"
  by (simp_all add: version_class_def variant_class_def hex_class_def)

lemma shape_of_match:
  assumes m: "matches uuid_regex s"
  shows "canonical_uuid_shape s"
proof -
  have len: "length s = 36" using m by (rule uuid_regex_length)
  note f = m [unfolded uuid_regex_facts_len [OF len]]
  have d8: "drop 8 s = CHR ''-'' # drop 9 s"
    using Cons_nth_drop_Suc [of 8 s] len f by simp
  have d13: "drop 13 s = CHR ''-'' # drop 14 s"
    using Cons_nth_drop_Suc [of 13 s] len f by simp
  have d18: "drop 18 s = CHR ''-'' # drop 19 s"
    using Cons_nth_drop_Suc [of 18 s] len f by simp
  have d23: "drop 23 s = CHR ''-'' # drop 24 s"
    using Cons_nth_drop_Suc [of 23 s] len f by simp
  have d14: "drop 14 s = s ! 14 # drop 15 s"
    using Cons_nth_drop_Suc [of 14 s] len by simp
  have d19: "drop 19 s = s ! 19 # drop 20 s"
    using Cons_nth_drop_Suc [of 19 s] len by simp
  have g3: "take 4 (drop 14 s) = s ! 14 # take 3 (drop 15 s)"
    by (simp add: d14)
  have g4: "take 4 (drop 19 s) = s ! 19 # take 3 (drop 20 s)"
    by (simp add: d19)
  have s2: "take 4 (drop 9 s) @ drop 13 s = drop 9 s"
    using append_take_drop_id [of 4 "drop 9 s"] by simp
  have s3: "take 4 (drop 14 s) @ drop 18 s = drop 14 s"
    using append_take_drop_id [of 4 "drop 14 s"] by simp
  have s4: "take 4 (drop 19 s) @ drop 23 s = drop 19 s"
    using append_take_drop_id [of 4 "drop 19 s"] by simp
  have "take 8 s @ ''-'' @ take 4 (drop 9 s) @ ''-'' @ take 4 (drop 14 s) @ ''-'' @
               take 4 (drop 19 s) @ ''-'' @ drop 24 s
        = take 8 s @ ''-'' @ take 4 (drop 9 s) @ ''-'' @ take 4 (drop 14 s) @ ''-'' @
               (take 4 (drop 19 s) @ drop 23 s)"
    by (simp only: d23 append_Cons append_Nil)
  also have "\<dots> = take 8 s @ ''-'' @ take 4 (drop 9 s) @ ''-'' @ (take 4 (drop 14 s) @ drop 18 s)"
    by (simp only: s4 d18 append_Cons append_Nil)
  also have "\<dots> = take 8 s @ ''-'' @ (take 4 (drop 9 s) @ drop 13 s)"
    by (simp only: s3 d13 append_Cons append_Nil)
  also have "\<dots> = take 8 s @ drop 8 s"
    by (simp only: s2 d8 append_Cons append_Nil)
  also have "\<dots> = s" by (rule append_take_drop_id)
  finally have dec: "s = take 8 s @ ''-'' @ take 4 (drop 9 s) @ ''-'' @ take 4 (drop 14 s) @
               ''-'' @ take 4 (drop 19 s) @ ''-'' @ drop 24 s" by (rule sym)
  have i14: "s ! 14 \<in> set hex_class" using f version_variant_hex(1) by blast
  have i19: "s ! 19 \<in> set hex_class" using f version_variant_hex(2) by blast
  have hexes: "set (take 8 s @ take 4 (drop 9 s) @ take 4 (drop 14 s) @
                 take 4 (drop 19 s) @ drop 24 s) \<subseteq> set hex_class"
    unfolding g3 g4 using f i14 i19 by simp
  have h3: "hd (take 4 (drop 14 s)) \<in> set version_class"
    using f by (simp add: g3)
  have h4: "hd (take 4 (drop 19 s)) \<in> set variant_class"
    using f by (simp add: g4)
  have lens: "length (take 8 s) = 8" "length (take 4 (drop 9 s)) = 4"
    "length (take 4 (drop 14 s)) = 4" "length (take 4 (drop 19 s)) = 4" "length (drop 24 s) = 12"
    by (simp_all add: len)
  show ?thesis
    unfolding canonical_uuid_shape_classes
    using dec lens hexes h3 h4 by blast
qed

lemma match_of_shape:
  assumes "canonical_uuid_shape s"
  shows "matches uuid_regex s"
proof -
  from assms obtain g1 g2 g3 g4 g5 where
    s: "s = g1 @ ''-'' @ g2 @ ''-'' @ g3 @ ''-'' @ g4 @ ''-'' @ g5" and
    l: "length g1 = 8" "length g2 = 4" "length g3 = 4" "length g4 = 4" "length g5 = 12" and
    h: "set (g1 @ g2 @ g3 @ g4 @ g5) \<subseteq> set hex_class" and
    v: "hd g3 \<in> set version_class" "hd g4 \<in> set variant_class"
    unfolding canonical_uuid_shape_classes by blast
  have len: "length s = 36" using s l by simp
  obtain a3 r3 where g3: "g3 = a3 # r3" using l(3) by (cases g3) auto
  obtain a4 r4 where g4: "g4 = a4 # r4" using l(4) by (cases g4) auto
  have hs: "set g1 \<subseteq> set hex_class" "set g2 \<subseteq> set hex_class" "set r3 \<subseteq> set hex_class"
      "set r4 \<subseteq> set hex_class" "set g5 \<subseteq> set hex_class"
    using h unfolding g3 g4 by simp_all
  have l3: "length r3 = 3" "length r4 = 3" using l g3 g4 by simp_all
  show ?thesis
    unfolding uuid_regex_facts_len [OF len]
    using l l3 v hs unfolding s g3 g4
    by (simp add: nth_append)
qed

lemma shape_iff: "matches uuid_regex s = canonical_uuid_shape s"
  using shape_of_match match_of_shape by blast

subsection \<open>Numbers never have the shape\<close>

lemma digit_char_range: "k < 10 \<Longrightarrow> digit_char k \<in> set ''0123456789''"
  by (auto simp: less_Suc_eq numeral_eq_Suc digit_char_def)

lemma digits_set: "set (digits n) \<subseteq> set ''0123456789''"
proof (induction n rule: digits.induct)
  case (1 n)
  show ?case
  proof (cases "n < 10")
    case True
    then show ?thesis using digit_char_range [of n] by (subst digits.simps) simp
  next
    case False
    then show ?thesis using 1 digit_char_range [of "n mod 10"] by (subst digits.simps) simp
  qed
qed

lemma number_never_uuid: "\<not> matches uuid_regex (to_string (IdNum n))"
proof
  assume m: "matches uuid_regex (to_string (IdNum n))"
  let ?s = "to_string (IdNum n)"
  have len: "length ?s = 36" using m by (rule uuid_regex_length)
  from m [unfolded uuid_regex_facts_len [OF len]] have d: "?s ! 8 = CHR ''-''" by simp
  have "?s = digits (nat n) \<or> ?s = CHR ''-'' # digits (nat (- n))"
    by (simp add: to_string_def)
  then obtain k where "?s = digits k \<or> ?s = CHR ''-'' # digits k"
    by blast
  then have "?s ! 8 \<in> set (digits k)"
  proof
    assume e: "?s = digits k"
    with len have "8 < length (digits k)" by simp
    then have "digits k ! 8 \<in> set (digits k)" by (rule nth_mem)
    with e show ?thesis by simp
  next
    assume e: "?s = CHR ''-'' # digits k"
    with len have "7 < length (digits k)" by simp
    then have "digits k ! 7 \<in> set (digits k)" by (rule nth_mem)
    with e show ?thesis by simp
  qed
  with d have "CHR ''-'' \<in> set (digits k)" by simp
  with digits_set [of k] have "CHR ''-'' \<in> set ''0123456789''" by (rule subsetD)
  then show False by simp
qed

lemma strict_eq_id_value [simp]: "strict_eq a (id_value m) = (a = id_value m)"
  by (cases m) (auto simp: strict_eq_def id_value_def)

lemma regex_test_shape: "regex_test m = id_has_uuid_shape m"
proof (cases m)
  case (IdStr s)
  then show ?thesis
    by (simp add: regex_test_def id_has_uuid_shape_def to_string_def shape_iff)
next
  case (IdNum n)
  then show ?thesis
    using number_never_uuid [of n] by (simp add: regex_test_def id_has_uuid_shape_def)
qed

lemma example_uuid_matches: "regex_test (IdStr example_uuid)"
  by (simp add: regex_test_def to_string_def example_uuid_def uuid_regex_facts_len
      hex_class_def version_class_def variant_class_def)

lemma example_number_passes: "\<not> regex_test (IdNum 42)"
  by (simp add: regex_test_def number_never_uuid)

lemma example_resolution:
  "getHighlightOIDs example_layer_view [IdStr example_uuid, IdNum 42] = [JNum 7, JNum 42]"
  by (simp add: getHighlightOIDs_def example_uuid_matches example_number_passes
      getOIDfromGlobalId_def example_layer_view_def id_value_def get_prop_def)

text \<open>
  C8. For every layer view and every list of ids, the highlight resolver returns a list
  of the same length, in the same order: at each position, an id of the canonical UUID
  shape (8-4-4-4-12 hexadecimal groups, version nibble 1 to 5, variant nibble 8, 9, a or
  b, either case) becomes the value of the object id field of the first loaded graphic
  whose \<open>GlobalID\<close> attribute equals it, or null when there is none; every other id is
  passed through unchanged. The two ids \<open>3fa85f64-5717-4562-b3fc-2c963f66afa6\<close> and 42,
  against one graphic with that global id and native id 7, give 7 and 42.
\<close>

theorem getHighlightOIDs_resolves:
  "length (getHighlightOIDs lv ids) = length ids \<and>
   (\<forall>i < length ids.
      getHighlightOIDs lv ids ! i =
        (if id_has_uuid_shape (ids ! i)
         then (case find (\<lambda>g. get_prop (attributes g) ''GlobalID'' = id_value (ids ! i))
                      (graphics lv) of
                 None \<Rightarrow> JNull
               | Some g \<Rightarrow> get_prop (attributes g) (objectIdField lv))
         else id_value (ids ! i))) \<and>
   getHighlightOIDs example_layer_view [IdStr example_uuid, IdNum 42] = [JNum 7, JNum 42]"
  by (simp add: example_resolution)
    (simp add: getHighlightOIDs_def regex_test_shape getOIDfromGlobalId_def)

text \<open>The second id of the example: a number, passed through.\<close>

theorem getHighlightOIDs_resolves_witness:
  "getHighlightOIDs example_layer_view [IdStr example_uuid, IdNum 42] ! 1 = JNum 42 \<and>
   \<not> id_has_uuid_shape (IdNum 42)"
proof -
  have "(1::nat) < length [IdStr example_uuid, IdNum 42]" by simp
  with getHighlightOIDs_resolves [of example_layer_view "[IdStr example_uuid, IdNum 42]"]
  have "getHighlightOIDs example_layer_view [IdStr example_uuid, IdNum 42] ! 1 =
        (if id_has_uuid_shape ([IdStr example_uuid, IdNum 42] ! 1)
         then (case find (\<lambda>g. get_prop (attributes g) ''GlobalID'' =
                                id_value ([IdStr example_uuid, IdNum 42] ! 1))
                      (graphics example_layer_view) of
                 None \<Rightarrow> JNull
               | Some g \<Rightarrow> get_prop (attributes g) (objectIdField example_layer_view))
         else id_value ([IdStr example_uuid, IdNum 42] ! 1))"
    by blast
  then show ?thesis by (simp add: id_has_uuid_shape_def id_value_def)
qed

section \<open>Properties of the highlight sets\<close>

lemma engine_run_nonempty [simp]: "engine_run e evs \<noteq> []"
  by (cases evs) auto

lemma getDerivedStateFromProps_keeps_one_live:
  assumes "one_live st e" and "getDerivedStateFromProps props (st\<lparr>layerView := lv\<rparr>) e = (st', evs)"
  shows "one_live st' (last (engine_run e evs))"
  using assms
  by (auto simp: getDerivedStateFromProps_def one_live_def Let_def
      split: option.splits if_splits)

lemma renders_one_live:
  "one_live st e \<Longrightarrow> list_all (\<lambda>(st', e'). one_live st' e') (renders ps st e)"
proof (induction ps arbitrary: st e)
  case Nil
  show ?case by simp
next
  case (Cons p rest)
  obtain props lv where p: "p = (props, lv)" by (cases p)
  obtain st' evs where g: "getDerivedStateFromProps props (st\<lparr>layerView := lv\<rparr>) e = (st', evs)"
    by (cases "getDerivedStateFromProps props (st\<lparr>layerView := lv\<rparr>) e")
  from getDerivedStateFromProps_keeps_one_live [OF Cons.prems g]
  have "one_live st' (last (engine_run e evs))" .
  with Cons.IH [of st' "last (engine_run e evs)"] g p show ?case by simp
qed

lemma one_live_length: "one_live st e \<Longrightarrow> length (live e) \<le> 1"
  by (auto simp: one_live_def split: option.splits)

text \<open>
  C3, as stated, fails: a render that replaces the highlight set 0 calls \<open>highlight\<close>
  first and \<open>remove\<close> on the previous set afterwards, so between the two calls the sets
  0 and 1 are both live.
\<close>

theorem highlight_replacement_order_counterexample:
  "getDerivedStateFromProps (highlight_props (Some [IdNum 42])) highlighted_state highlighted_engine =
     (highlighted_state\<lparr>highlights := Some 1\<rparr>,
      [Highlight example_layer_view [JNum 42] 1, HighlightRemove 0]) \<and>
   map live (engine_run highlighted_engine
              [Highlight example_layer_view [JNum 42] 1, HighlightRemove 0]) =
     [[0], [0, 1], [1]]"
  by (simp add: getDerivedStateFromProps_def highlight_props_def highlighted_state_def
      highlighted_engine_def example_layer_view_def getHighlightOIDs_def example_number_passes
      id_value_def)

text \<open>
  C3, amended. From a state and an engine that agree on the live highlight set, every
  sequence of renders (each with its props and the layer view of the moment) leaves at
  most one highlight set live after each render, the one of the state. Within a render
  that replaces a set, the new set is installed first and the previous one is released
  right after: the calls are \<open>highlight\<close>, then \<open>remove\<close>, and both sets are live in
  between.
\<close>

theorem highlight_one_live_between_renders:
  assumes "one_live st e"
  shows "list_all (\<lambda>(st', e'). one_live st' e' \<and> length (live e') \<le> 1) (renders ps st e) \<and>
         (\<forall>props h h'.
            highlights st = Some h \<and>
            highlights (fst (getDerivedStateFromProps props st e)) = Some h' \<longrightarrow>
            h' \<noteq> h \<and>
            (\<exists>lv ids. snd (getDerivedStateFromProps props st e) =
                         [Highlight lv ids h', HighlightRemove h]) \<and>
            map live (engine_run e (snd (getDerivedStateFromProps props st e))) =
              [[h], [h, h'], [h']])"
proof (intro conjI allI impI)
  have "list_all (\<lambda>(st', e'). one_live st' e') (renders ps st e)"
    using assms by (rule renders_one_live)
  then show "list_all (\<lambda>(st', e'). one_live st' e' \<and> length (live e') \<le> 1) (renders ps st e)"
    by (rule list.pred_mono_strong) (auto dest: one_live_length)
next
  fix props h h'
  assume a: "highlights st = Some h \<and>
      highlights (fst (getDerivedStateFromProps props st e)) = Some h'"
  with assms show "h' \<noteq> h"
    by (auto simp: getDerivedStateFromProps_def one_live_def Let_def
        split: option.splits if_splits)
  from a assms show "\<exists>lv ids. snd (getDerivedStateFromProps props st e) =
                         [Highlight lv ids h', HighlightRemove h]"
    by (auto simp: getDerivedStateFromProps_def one_live_def Let_def
        split: option.splits if_splits)
  from a assms show "map live (engine_run e (snd (getDerivedStateFromProps props st e))) =
              [[h], [h, h'], [h']]"
    by (auto simp: getDerivedStateFromProps_def one_live_def Let_def
        split: option.splits if_splits)
qed

text \<open>
  Three renders from a state with the highlight set 0: a new id, an empty highlight, and
  a global id while the layer view is gone.
\<close>

theorem highlight_one_live_between_renders_witness:
  "one_live highlighted_state highlighted_engine \<and>
   list_all (\<lambda>(st', e'). length (live e') \<le> 1)
     (renders [(highlight_props (Some [IdNum 42]), Some example_layer_view),
               (highlight_props (Some []), Some example_layer_view),
               (highlight_props (Some [IdStr example_uuid]), None)]
        highlighted_state highlighted_engine)"
proof -
  have o: "one_live highlighted_state highlighted_engine"
    by (simp add: one_live_def highlighted_state_def highlighted_engine_def)
  from highlight_one_live_between_renders [OF o]
  have "list_all (\<lambda>(st', e'). one_live st' e' \<and> length (live e') \<le> 1)
     (renders [(highlight_props (Some [IdNum 42]), Some example_layer_view),
               (highlight_props (Some []), Some example_layer_view),
               (highlight_props (Some [IdStr example_uuid]), None)]
        highlighted_state highlighted_engine)"
    by blast
  then have "list_all (\<lambda>(st', e'). length (live e') \<le> 1)
     (renders [(highlight_props (Some [IdNum 42]), Some example_layer_view),
               (highlight_props (Some []), Some example_layer_view),
               (highlight_props (Some [IdStr example_uuid]), None)]
        highlighted_state highlighted_engine)"
    by (rule list.pred_mono_strong) auto
  with o show ?thesis by simp
qed

text \<open>
  C10. In every render in which the highlight prop is absent or empty, or the state has
  no layer view yet, \<open>getDerivedStateFromProps\<close> makes no \<open>highlight\<close> call, leaves no
  highlight set in the state, and releases the highlight set the state held: its only
  call is the \<open>remove\<close> of that set, which is no longer live afterwards.
\<close>

theorem cleared_highlight_is_released:
  assumes "highlight props = None \<or> highlight props = Some [] \<or> layerView st = None"
  shows "getDerivedStateFromProps props st e =
           (st\<lparr>highlights := None\<rparr>,
            case highlights st of None \<Rightarrow> [] | Some h \<Rightarrow> [HighlightRemove h]) \<and>
         live (last (engine_run e (snd (getDerivedStateFromProps props st e)))) =
           (case highlights st of None \<Rightarrow> live e | Some h \<Rightarrow> removeAll h (live e))"
  using assms
  by (auto simp: getDerivedStateFromProps_def split: option.splits)

text \<open>An empty highlight prop against the live highlight set 0.\<close>

theorem cleared_highlight_is_released_witness:
  "getDerivedStateFromProps (highlight_props (Some [])) highlighted_state highlighted_engine =
     (highlighted_state\<lparr>highlights := None\<rparr>, [HighlightRemove 0]) \<and>
   live (last (engine_run highlighted_engine
     (snd (getDerivedStateFromProps (highlight_props (Some [])) highlighted_state
             highlighted_engine)))) = []"
proof -
  have h: "highlight (highlight_props (Some [])) = None \<or>
           highlight (highlight_props (Some [])) = Some [] \<or>
           layerView highlighted_state = None"
    by (simp add: highlight_props_def)
  from cleared_highlight_is_released [OF h, of highlighted_engine]
  show ?thesis
    by (simp add: highlighted_state_def highlighted_engine_def)
qed

section \<open>Properties of the mount sequence\<close>

lemma mount_settings_eq:
  "getLayerSettings (own (mount_props vw sel)) = mount_settings"
  by (simp add: getLayerSettings_def mount_props_def mount_settings_def layerSettingsProps_def
      get_prop_def set_prop_def)

lemma no_map_calls_simps [simp]:
  "is_map_add (MapAdd l)" "\<not> is_map_add (LoadLayer s)" "\<not> is_map_add Unmounted"
  "\<not> is_map_add (SourceRemoveAll l)" "\<not> is_map_add (LayersRemove l)"
  "\<not> is_map_add (WhenLayerView l)" "\<not> is_map_add (MapRemove l)"
  "is_map_remove (MapRemove l)" "\<not> is_map_remove (LoadLayer s)" "\<not> is_map_remove Unmounted"
  "\<not> is_map_remove (SourceRemoveAll l)" "\<not> is_map_remove (LayersRemove l)"
  "\<not> is_map_remove (WhenLayerView l)" "\<not> is_map_remove (MapAdd l)"
  by (simp_all add: is_map_add_def is_map_remove_def)

lemma is_layer_call_simps [simp]:
  "is_layer_call (LoadLayer s)" "is_layer_call (MapAdd l)" "is_layer_call (MapRemove l)"
  "\<not> is_layer_call (WhenLayerView l)" "\<not> is_layer_call (LayerWhen l)"
  "\<not> is_layer_call (ApplyUpdates a b c d)" "\<not> is_layer_call (Highlight lv ids h)"
  "\<not> is_layer_call (HighlightRemove h)" "\<not> is_layer_call (SetStateHighlights h)"
  "\<not> is_layer_call (SetStateLayer l lv)" "\<not> is_layer_call (OnLoad l)"
  "\<not> is_layer_call (Refresh lv)" "\<not> is_layer_call (SourceRemoveAll l)"
  "\<not> is_layer_call (LayersRemove l)" "\<not> is_layer_call Unmounted"
  by (simp_all add: is_layer_call_def)



subsection \<open>Calls that neither load nor add nor remove the layer\<close>

lemma getDerivedStateFromProps_no_layer_call:
  "list_all (\<lambda>ev. \<not> is_layer_call ev) (snd (getDerivedStateFromProps props st e))"
  by (simp add: getDerivedStateFromProps_def Let_def split: option.splits)

lemma componentDidUpdate_no_layer_call:
  "list_all (\<lambda>ev. \<not> is_layer_call ev) (fst (componentDidUpdate applied prevProps props this))"
  by (simp add: componentDidUpdate_def Let_def split: option.splits)

lemma rerender_no_layer_call:
  "list_all (\<lambda>ev. \<not> is_layer_call ev) (snd (rerender props this e))"
proof (cases "getDerivedStateFromProps props (state this) e")
  case (Pair st' evs)
  with getDerivedStateFromProps_no_layer_call [of props "state this" e]
  have "list_all (\<lambda>ev. \<not> is_layer_call ev) evs" by simp
  with Pair componentDidUpdate_no_layer_call [of "Resolved ()" props props "this\<lparr>state := st'\<rparr>"]
  show ?thesis by (simp add: rerender_def)
qed












subsection \<open>Where the mount sequence removes the layer\<close>




subsection \<open>The claims\<close>

text \<open>
  C1. The claim holds of the first two awaits only. A freshly constructed component is
  mounted on a view with no layers; the loader and the layer view resolve, and React
  unmounts the component while \<open>layer.when()\<close> is pending. \<open>load\<close> does not look at
  \<open>componentIsMounted\<close> again: after the unmount it calls \<open>applyUpdates\<close>, \<open>setState\<close>
  (which React drops) and \<open>onLoad\<close>, and the layer it added stays on the map.
\<close>

theorem unmount_during_when_still_completes:
  "componentDidMount
     (mount_schedule (Some AwaitWhen) (mount_props \<lparr>items = []\<rparr> None))
     (mount_props \<lparr>items = []\<rparr> None) constructor =
   (constructor,
    [LoadLayer mount_settings, MapAdd example_handle, WhenLayerView example_handle,
     LayerWhen example_handle, Unmounted,
     ApplyUpdates mount_settings (own (mount_props \<lparr>items = []\<rparr> None)) None None,
     SetStateLayer example_handle example_layer_view, OnLoad example_handle],
    Returned)"
  unfolding mount_settings_eq componentDidMount_def
  by (simp add: load_def load_attach_def load_ready_def load_finish_def highlight_selection_def
      setState_def suspend_def componentWillUnmount_def constructor_def mount_schedule_def
      mount_props_def mount_settings_def get_prop_def)

text \<open>
  C4. The ready step reads the handle and the layer view from \<open>this.state\<close>, which the
  sequence fills only at its end. A freshly constructed component is mounted with the
  selection \<open>[7]\<close> and nothing unmounts it: \<open>applyUpdates\<close> gets null for the handle and
  for the layer view, the highlight of the selection throws a TypeError on the null
  layer view, and neither the state is set nor \<open>onLoad\<close> called.
\<close>

theorem ready_step_passes_null_handle:
  "componentDidMount
     (mount_schedule None (mount_props \<lparr>items = []\<rparr> (Some [JNum 7])))
     (mount_props \<lparr>items = []\<rparr> (Some [JNum 7])) constructor =
   (constructor\<lparr>componentIsMounted := True\<rparr>,
    [LoadLayer mount_settings, MapAdd example_handle, WhenLayerView example_handle,
     LayerWhen example_handle,
     ApplyUpdates mount_settings (own (mount_props \<lparr>items = []\<rparr> (Some [JNum 7]))) None None],
    Threw TypeError)"
  unfolding mount_settings_eq componentDidMount_def
  by (simp add: load_def load_attach_def load_ready_def load_finish_def highlight_selection_def
      setState_def suspend_def componentWillUnmount_def constructor_def mount_schedule_def
      mount_props_def mount_settings_def get_prop_def)




text \<open>
  C5, as stated, fails in its middle part: the map already holds a layer with the id of
  the settings, \<open>load\<close> reuses it and still calls \<open>view.map.add\<close> on it.
\<close>

theorem remount_adds_again_counterexample:
  "componentDidMount
     (mount_schedule None (mount_props \<lparr>items = [example_handle]\<rparr> None))
     (mount_props \<lparr>items = [example_handle]\<rparr> None) constructor =
   (\<lparr>state = \<lparr>layer = Some example_handle, layerView = Some example_layer_view,
               highlights = None\<rparr>,
     componentIsMounted = True\<rparr>,
    [MapAdd example_handle, WhenLayerView example_handle, LayerWhen example_handle,
     ApplyUpdates mount_settings (own (mount_props \<lparr>items = [example_handle]\<rparr> None)) None None,
     SetStateLayer example_handle example_layer_view, OnLoad example_handle],
    Returned) \<and>
   example_handle \<in> set (items \<lparr>items = [example_handle]\<rparr>)"
  unfolding mount_settings_eq componentDidMount_def
  by (simp add: load_def load_attach_def load_ready_def load_finish_def highlight_selection_def
      setState_def rerender_def getDerivedStateFromProps_def componentDidUpdate_def
      object_keys_def strict_eq_def suspend_def
      componentWillUnmount_def constructor_def mount_schedule_def
      mount_props_def mount_settings_def get_prop_def example_handle_def)

text \<open>
  C5, amended. When a layer of the map has the id of the settings, \<open>load\<close> reuses it:
  the loader is not called. The \<open>add\<close> is not conditional, so the reused handle is
  added again. When the component stays mounted, the awaited calls resolve, no
  selection is given and the \<open>onLoad\<close> prop is a function, the sequence runs to its end:
  \<open>applyUpdates\<close> is called with the settings as previous and the current props as next,
  \<open>setState\<close> puts the reused handle and its layer view into the state, the render this
  triggers makes its own calls (first of all the highlight of a non-empty highlight
  prop on that layer view; never a call of the loader, an \<open>add\<close> or a \<open>remove\<close>), and
  \<open>onLoad\<close> is then called with the reused handle.
\<close>

theorem remount_reuses_handle:
  assumes "find (\<lambda>l. strict_eq (layer_id l) (get_prop settings ''id'')) (items vw) = Some lyr"
    and "componentIsMounted this"
    and "unmount_at sch = None"
    and "whenLayerView_result sch = Resolved lv"
    and "when_result sch = Resolved ()"
    and "applyUpdates_result sch = Resolved ()"
    and "selection (props_at sch AwaitApplyUpdates) = None \<or>
         selection (props_at sch AwaitApplyUpdates) = Some []"
    and "get_prop (own (props_at sch AwaitApplyUpdates)) ''onLoad'' = JFun f"
  shows "load sch (Some vw) settings this =
           (fst (rerender (props_at sch AwaitApplyUpdates)
                   (this\<lparr>state := (state this)\<lparr>layer := Some lyr, layerView := Some lv\<rparr>\<rparr>)
                   (engine_at_ready sch)),
            [MapAdd lyr, WhenLayerView lyr, LayerWhen lyr,
             ApplyUpdates settings (own (props_at sch AwaitWhen))
               (layer (state this)) (layerView (state this)),
             SetStateLayer lyr lv] @
            snd (rerender (props_at sch AwaitApplyUpdates)
                   (this\<lparr>state := (state this)\<lparr>layer := Some lyr, layerView := Some lv\<rparr>\<rparr>)
                   (engine_at_ready sch)) @
            [OnLoad lyr],
            Returned) \<and>
         list_all (\<lambda>ev. \<not> is_layer_call ev)
           (snd (rerender (props_at sch AwaitApplyUpdates)
                   (this\<lparr>state := (state this)\<lparr>layer := Some lyr, layerView := Some lv\<rparr>\<rparr>)
                   (engine_at_ready sch))) \<and>
         (\<forall>ids. highlight (props_at sch AwaitApplyUpdates) = Some ids \<and> ids \<noteq> [] \<and>
                has_highlight lv \<longrightarrow>
            highlights (state (fst (rerender (props_at sch AwaitApplyUpdates)
                   (this\<lparr>state := (state this)\<lparr>layer := Some lyr, layerView := Some lv\<rparr>\<rparr>)
                   (engine_at_ready sch)))) = Some (next_handle (engine_at_ready sch)) \<and>
            (\<exists>rest. snd (rerender (props_at sch AwaitApplyUpdates)
                   (this\<lparr>state := (state this)\<lparr>layer := Some lyr, layerView := Some lv\<rparr>\<rparr>)
                   (engine_at_ready sch)) =
              Highlight lv (getHighlightOIDs lv ids) (next_handle (engine_at_ready sch)) # rest))"
proof -
  have run: "load sch (Some vw) settings this =
           (fst (rerender (props_at sch AwaitApplyUpdates)
                   (this\<lparr>state := (state this)\<lparr>layer := Some lyr, layerView := Some lv\<rparr>\<rparr>)
                   (engine_at_ready sch)),
            [MapAdd lyr, WhenLayerView lyr, LayerWhen lyr,
             ApplyUpdates settings (own (props_at sch AwaitWhen))
               (layer (state this)) (layerView (state this)),
             SetStateLayer lyr lv] @
            snd (rerender (props_at sch AwaitApplyUpdates)
                   (this\<lparr>state := (state this)\<lparr>layer := Some lyr, layerView := Some lv\<rparr>\<rparr>)
                   (engine_at_ready sch)) @
            [OnLoad lyr],
            Returned)"
    using assms
    by (cases "rerender (props_at sch AwaitApplyUpdates)
                   (this\<lparr>state := (state this)\<lparr>layer := Some lyr, layerView := Some lv\<rparr>\<rparr>)
                   (engine_at_ready sch)")
      (auto simp: load_def load_attach_def load_ready_def load_finish_def
        highlight_selection_def setState_def suspend_def)
  have quiet: "list_all (\<lambda>ev. \<not> is_layer_call ev)
           (snd (rerender (props_at sch AwaitApplyUpdates)
                   (this\<lparr>state := (state this)\<lparr>layer := Some lyr, layerView := Some lv\<rparr>\<rparr>)
                   (engine_at_ready sch)))"
    by (rule rerender_no_layer_call)
  have first: "\<forall>ids. highlight (props_at sch AwaitApplyUpdates) = Some ids \<and> ids \<noteq> [] \<and>
                has_highlight lv \<longrightarrow>
            highlights (state (fst (rerender (props_at sch AwaitApplyUpdates)
                   (this\<lparr>state := (state this)\<lparr>layer := Some lyr, layerView := Some lv\<rparr>\<rparr>)
                   (engine_at_ready sch)))) = Some (next_handle (engine_at_ready sch)) \<and>
            (\<exists>rest. snd (rerender (props_at sch AwaitApplyUpdates)
                   (this\<lparr>state := (state this)\<lparr>layer := Some lyr, layerView := Some lv\<rparr>\<rparr>)
                   (engine_at_ready sch)) =
              Highlight lv (getHighlightOIDs lv ids) (next_handle (engine_at_ready sch)) # rest)"
    by (simp add: rerender_def getDerivedStateFromProps_def)
  from run quiet first show ?thesis by (intro conjI)
qed

text \<open>
  The remount of the example layer on a map that holds it, with a highlight prop of one
  id: the render that \<open>setState\<close> triggers installs the highlight before \<open>onLoad\<close> is
  called.
\<close>

theorem remount_reuses_handle_witness:
  "load (mount_schedule None remount_props)
     (Some \<lparr>items = [example_handle]\<rparr>) mount_settings
     (constructor\<lparr>componentIsMounted := True\<rparr>) =
   (\<lparr>state = \<lparr>layer = Some example_handle, layerView = Some example_layer_view,
               highlights = Some 0\<rparr>,
     componentIsMounted = True\<rparr>,
    [MapAdd example_handle, WhenLayerView example_handle, LayerWhen example_handle,
     ApplyUpdates mount_settings (own remount_props) None None,
     SetStateLayer example_handle example_layer_view,
     Highlight example_layer_view [JNum 42] 0,
     OnLoad example_handle],
    Returned)"
proof -
  let ?sch = "mount_schedule None remount_props"
  let ?c0 = "constructor\<lparr>componentIsMounted := True\<rparr>"
  have f: "find (\<lambda>l. strict_eq (layer_id l) (get_prop mount_settings ''id''))
             (items \<lparr>items = [example_handle]\<rparr>) = Some example_handle"
    by (simp add: mount_settings_def get_prop_def example_handle_def)
  have m: "componentIsMounted ?c0" by simp
  have s: "unmount_at ?sch = None" "whenLayerView_result ?sch = Resolved example_layer_view"
    "when_result ?sch = Resolved ()" "applyUpdates_result ?sch = Resolved ()"
    "selection (props_at ?sch AwaitApplyUpdates) = None \<or>
     selection (props_at ?sch AwaitApplyUpdates) = Some []"
    "get_prop (own (props_at ?sch AwaitApplyUpdates)) ''onLoad'' = JFun 30"
    by (simp_all add: mount_schedule_def remount_props_def get_prop_def)
  have r: "rerender (props_at ?sch AwaitApplyUpdates)
             (?c0\<lparr>state := (state ?c0)\<lparr>layer := Some example_handle,
                                       layerView := Some example_layer_view\<rparr>\<rparr>)
             (engine_at_ready ?sch) =
           (\<lparr>state = \<lparr>layer = Some example_handle, layerView = Some example_layer_view,
                       highlights = Some 0\<rparr>,
             componentIsMounted = True\<rparr>,
            [Highlight example_layer_view [JNum 42] 0])"
    by (simp add: rerender_def getDerivedStateFromProps_def componentDidUpdate_def
        mount_schedule_def remount_props_def constructor_def example_layer_view_def
        getHighlightOIDs_def example_number_passes id_value_def object_keys_def get_prop_def
        strict_eq_def)
  from remount_reuses_handle [OF f m s]
  have "load ?sch (Some \<lparr>items = [example_handle]\<rparr>) mount_settings ?c0 =
           (fst (rerender (props_at ?sch AwaitApplyUpdates)
                   (?c0\<lparr>state := (state ?c0)\<lparr>layer := Some example_handle,
                                             layerView := Some example_layer_view\<rparr>\<rparr>)
                   (engine_at_ready ?sch)),
            [MapAdd example_handle, WhenLayerView example_handle, LayerWhen example_handle,
             ApplyUpdates mount_settings (own (props_at ?sch AwaitWhen))
               (layer (state ?c0)) (layerView (state ?c0)),
             SetStateLayer example_handle example_layer_view] @
            snd (rerender (props_at ?sch AwaitApplyUpdates)
                   (?c0\<lparr>state := (state ?c0)\<lparr>layer := Some example_handle,
                                             layerView := Some example_layer_view\<rparr>\<rparr>)
                   (engine_at_ready ?sch)) @
            [OnLoad example_handle],
            Returned)"
    by blast
  then show ?thesis
    unfolding r by (simp add: constructor_def mount_schedule_def)
qed

section \<open>Properties of the update path\<close>

lemma find_None_all: "(find P xs = None) = (\<forall>x \<in> set xs. \<not> P x)"
  by (induction xs) auto

text \<open>
  C6, as stated, fails in its first half: between the two props objects only
  \<open>children\<close> differs, which is no recognized key and not the refresh counter, and
  \<open>applyUpdates\<close> is called.
\<close>

theorem update_on_unrecognized_key_counterexample:
  "list_all (\<lambda>key. get_prop (own (children_props 20)) key = get_prop (own (children_props 21)) key)
     (''refresh'' # layerSettingsProps) \<and>
   componentDidUpdate (Resolved ()) (children_props 20) (children_props 21) ready_component =
     ([ApplyUpdates (own (children_props 20)) (own (children_props 21))
         (Some example_handle) (Some example_layer_view)],
      Returned)"
  by (simp add: componentDidUpdate_def children_props_def ready_component_def
      layerSettingsProps_def get_prop_def object_keys_def strict_eq_def)

text \<open>
  C6, amended. On a prop update while ready (the state holds a handle and a layer
  view), the comparison runs over every own key of the previous props, recognized or
  not. If no own key of the previous props has a strictly different value in the next
  props, \<open>componentDidUpdate\<close> makes no call at all. If some own key differs (and no key
  is the empty string), \<open>applyUpdates\<close> is called once, with the previous props, the next
  props, the handle and the layer view.
\<close>

theorem update_dispatch_on_any_own_key:
  assumes "layer (state this) = Some lyr" and "layerView (state this) = Some lv"
  shows
    "((\<forall>key \<in> set (object_keys (own prevProps)).
         strict_eq (get_prop (own prevProps) key) (get_prop (own props) key)) \<longrightarrow>
      componentDidUpdate applied prevProps props this = ([], Returned)) \<and>
     ((\<exists>key \<in> set (object_keys (own prevProps)).
         \<not> strict_eq (get_prop (own prevProps) key) (get_prop (own props) key)) \<and>
      [] \<notin> set (object_keys (own prevProps)) \<longrightarrow>
      filter is_apply_updates (fst (componentDidUpdate applied prevProps props this)) =
        [ApplyUpdates (own prevProps) (own props) (Some lyr) (Some lv)])"
proof (intro conjI impI)
  assume "\<forall>key \<in> set (object_keys (own prevProps)).
         strict_eq (get_prop (own prevProps) key) (get_prop (own props) key)"
  then have "find (\<lambda>key. \<not> strict_eq (get_prop (own prevProps) key) (get_prop (own props) key))
                 (object_keys (own prevProps)) = None"
    by (simp add: find_None_all)
  then show "componentDidUpdate applied prevProps props this = ([], Returned)"
    using assms by (simp add: componentDidUpdate_def)
next
  assume a: "(\<exists>key \<in> set (object_keys (own prevProps)).
         \<not> strict_eq (get_prop (own prevProps) key) (get_prop (own props) key)) \<and>
      [] \<notin> set (object_keys (own prevProps))"
  then obtain key where
    f: "find (\<lambda>key. \<not> strict_eq (get_prop (own prevProps) key) (get_prop (own props) key))
                 (object_keys (own prevProps)) = Some key"
    by (cases "find (\<lambda>key. \<not> strict_eq (get_prop (own prevProps) key) (get_prop (own props) key))
                 (object_keys (own prevProps))") (auto simp: find_None_all)
  then have "key \<in> set (object_keys (own prevProps))"
    by (auto simp: find_Some_iff)
  with a have "key \<noteq> []" by auto
  with f assms
  show "filter is_apply_updates (fst (componentDidUpdate applied prevProps props this)) =
        [ApplyUpdates (own prevProps) (own props) (Some lyr) (Some lv)]"
    by (simp add: componentDidUpdate_def is_apply_updates_def Let_def)
qed

text \<open>An update with the same props, and one in which only \<open>children\<close> differs.\<close>

theorem update_dispatch_on_any_own_key_witness:
  "componentDidUpdate (Resolved ()) (children_props 20) (children_props 20) ready_component =
     ([], Returned) \<and>
   filter is_apply_updates
     (fst (componentDidUpdate (Resolved ()) (children_props 20) (children_props 21)
             ready_component)) =
     [ApplyUpdates (own (children_props 20)) (own (children_props 21))
        (Some example_handle) (Some example_layer_view)]"
proof -
  have r: "layer (state ready_component) = Some example_handle"
    "layerView (state ready_component) = Some example_layer_view"
    by (simp_all add: ready_component_def)
  have same: "\<forall>key \<in> set (object_keys (own (children_props 20))).
         strict_eq (get_prop (own (children_props 20)) key)
           (get_prop (own (children_props 20)) key)"
    by (simp add: children_props_def object_keys_def get_prop_def strict_eq_def)
  have differ: "(\<exists>key \<in> set (object_keys (own (children_props 20))).
         \<not> strict_eq (get_prop (own (children_props 20)) key)
             (get_prop (own (children_props 21)) key)) \<and>
      [] \<notin> set (object_keys (own (children_props 20)))"
    by (simp add: children_props_def object_keys_def get_prop_def strict_eq_def)
  from update_dispatch_on_any_own_key [OF r, of "children_props 20" "children_props 20" "Resolved ()"]
    same
  have a: "componentDidUpdate (Resolved ()) (children_props 20) (children_props 20)
             ready_component = ([], Returned)"
    by blast
  from update_dispatch_on_any_own_key [OF r, of "children_props 20" "children_props 21" "Resolved ()"]
    differ
  have b: "filter is_apply_updates
     (fst (componentDidUpdate (Resolved ()) (children_props 20) (children_props 21)
             ready_component)) =
     [ApplyUpdates (own (children_props 20)) (own (children_props 21))
        (Some example_handle) (Some example_layer_view)]"
    by blast
  from a b show ?thesis by simp
qed

section \<open>Properties of the teardown of the drawing tool\<close>

lemma run_calls_quiet:
  "list_all (\<lambda>ev. \<not> throws ev) calls \<Longrightarrow> run_calls throws calls = (calls, Returned)"
  by (induction calls) auto

lemma run_calls_throw:
  "list_all (\<lambda>ev. \<not> throws ev) pre \<Longrightarrow> throws call \<Longrightarrow>
   run_calls throws (pre @ call # post) = (pre @ [call], Threw EngineError)"
  by (induction pre) auto

lemma teardown_plan:
  "tool_componentWillUnmount (\<lambda>ev. False) this =
     ((case onCreate this of None \<Rightarrow> [] | Some sub \<Rightarrow> [SubscriptionRemove sub]) @
      (case onUpdate this of None \<Rightarrow> [] | Some sub \<Rightarrow> [SubscriptionRemove sub]) @
      (case model this of
         None \<Rightarrow> []
       | Some m \<Rightarrow> [ModelComplete m, ModelCancel m, ModelReset m, ModelDestroy m]) @
      (case tool_layer this of None \<Rightarrow> [] | Some l \<Rightarrow> [ViewMapRemove l]),
      Returned)"
  unfolding tool_componentWillUnmount_def
  by (rule run_calls_quiet) (simp add: list_all_iff)

lemma teardown_runs_plan:
  "tool_componentWillUnmount throws this =
     run_calls throws (fst (tool_componentWillUnmount (\<lambda>ev. False) this))"
  unfolding teardown_plan by (simp add: tool_componentWillUnmount_def)

text \<open>
  C9, as stated, fails twice. A tool that is unmounted before \<open>componentDidMount\<close>
  resumed from its await has no subscription, no model and no layer, and its teardown
  makes no call. And the steps do depend on the previous one succeeding: when
  \<open>complete\<close> throws on a mounted tool, the teardown ends there, with no \<open>cancel\<close>,
  \<open>reset\<close> or \<open>destroy\<close> and with the layer still on the map.
\<close>

theorem teardown_before_mount_counterexample:
  "tool_componentWillUnmount (\<lambda>ev. False) drawing_tool_new = ([], Returned) \<and>
   tool_componentWillUnmount (\<lambda>ev. ev = ModelComplete 3) mounted_tool =
     ([SubscriptionRemove 1, SubscriptionRemove 2, ModelComplete 3], Threw EngineError)"
  by (simp add: tool_componentWillUnmount_def drawing_tool_new_def mounted_tool_def)

text \<open>
  C9, amended. Every teardown of a tool whose subscriptions, model and layer exist (any
  state after the mount completed) and in which no call throws removes the create and
  the update subscription, then calls complete, cancel, reset and destroy on the model
  in that order, and finally removes the layer from the map. Each part is under the
  test of its own object alone: in every teardown in which no call throws, the calls
  are the removal of the create subscription if it exists, of the update subscription
  if it exists, the four calls on the model if it exists, and the removal of the layer
  if it exists, in this order. The steps are not protected from one another: the first
  call that throws is the last call of the teardown.
\<close>

theorem teardown_order:
  "(onCreate this = Some c \<and> onUpdate this = Some u \<and> model this = Some m \<and>
    tool_layer this = Some l \<longrightarrow>
      tool_componentWillUnmount (\<lambda>ev. False) this =
        ([SubscriptionRemove c, SubscriptionRemove u,
          ModelComplete m, ModelCancel m, ModelReset m, ModelDestroy m,
          ViewMapRemove l], Returned)) \<and>
   tool_componentWillUnmount (\<lambda>ev. False) this =
     ((case onCreate this of None \<Rightarrow> [] | Some sub \<Rightarrow> [SubscriptionRemove sub]) @
      (case onUpdate this of None \<Rightarrow> [] | Some sub \<Rightarrow> [SubscriptionRemove sub]) @
      (case model this of
         None \<Rightarrow> []
       | Some m \<Rightarrow> [ModelComplete m, ModelCancel m, ModelReset m, ModelDestroy m]) @
      (case tool_layer this of None \<Rightarrow> [] | Some l \<Rightarrow> [ViewMapRemove l]),
      Returned) \<and>
   (list_all (\<lambda>ev. \<not> throws ev) (fst (tool_componentWillUnmount (\<lambda>ev. False) this)) \<longrightarrow>
      tool_componentWillUnmount throws this = tool_componentWillUnmount (\<lambda>ev. False) this) \<and>
   (\<forall>pre call post.
      fst (tool_componentWillUnmount (\<lambda>ev. False) this) = pre @ call # post \<and>
      list_all (\<lambda>ev. \<not> throws ev) pre \<and> throws call \<longrightarrow>
      tool_componentWillUnmount throws this = (pre @ [call], Threw EngineError))"
proof (intro conjI allI impI)
  assume "onCreate this = Some c \<and> onUpdate this = Some u \<and> model this = Some m \<and>
    tool_layer this = Some l"
  then show "tool_componentWillUnmount (\<lambda>ev. False) this =
        ([SubscriptionRemove c, SubscriptionRemove u,
          ModelComplete m, ModelCancel m, ModelReset m, ModelDestroy m,
          ViewMapRemove l], Returned)"
    by (simp add: teardown_plan)
next
  show "tool_componentWillUnmount (\<lambda>ev. False) this =
     ((case onCreate this of None \<Rightarrow> [] | Some sub \<Rightarrow> [SubscriptionRemove sub]) @
      (case onUpdate this of None \<Rightarrow> [] | Some sub \<Rightarrow> [SubscriptionRemove sub]) @
      (case model this of
         None \<Rightarrow> []
       | Some m \<Rightarrow> [ModelComplete m, ModelCancel m, ModelReset m, ModelDestroy m]) @
      (case tool_layer this of None \<Rightarrow> [] | Some l \<Rightarrow> [ViewMapRemove l]),
      Returned)"
    by (rule teardown_plan)
next
  assume q: "list_all (\<lambda>ev. \<not> throws ev) (fst (tool_componentWillUnmount (\<lambda>ev. False) this))"
  have "tool_componentWillUnmount throws this =
          (fst (tool_componentWillUnmount (\<lambda>ev. False) this), Returned)"
    by (subst teardown_runs_plan) (rule run_calls_quiet [OF q])
  then show "tool_componentWillUnmount throws this =
               tool_componentWillUnmount (\<lambda>ev. False) this"
    by (simp add: teardown_plan)
next
  fix pre call post
  assume a: "fst (tool_componentWillUnmount (\<lambda>ev. False) this) = pre @ call # post \<and>
      list_all (\<lambda>ev. \<not> throws ev) pre \<and> throws call"
  have "tool_componentWillUnmount throws this = run_calls throws (pre @ call # post)"
    using a by (subst teardown_runs_plan) simp
  with a show "tool_componentWillUnmount throws this = (pre @ [call], Threw EngineError)"
    by (simp add: run_calls_throw)
qed

text \<open>
  The teardown of a mounted tool when no call throws, and when \<open>cancel\<close> throws.
\<close>

theorem teardown_order_witness:
  "tool_componentWillUnmount (\<lambda>ev. False) mounted_tool =
     ([SubscriptionRemove 1, SubscriptionRemove 2,
       ModelComplete 3, ModelCancel 3, ModelReset 3, ModelDestroy 3, ViewMapRemove 4],
      Returned) \<and>
   tool_componentWillUnmount (\<lambda>ev. ev = ModelCancel 3) mounted_tool =
     ([SubscriptionRemove 1, SubscriptionRemove 2, ModelComplete 3, ModelCancel 3],
      Threw EngineError)"
proof -
  note t = teardown_order [of mounted_tool 1 2 3 4 "\<lambda>ev. ev = ModelCancel 3"]
  have fields: "onCreate mounted_tool = Some 1 \<and> onUpdate mounted_tool = Some 2 \<and>
        model mounted_tool = Some 3 \<and> tool_layer mounted_tool = Some 4"
    by (simp add: mounted_tool_def)
  with t have a: "tool_componentWillUnmount (\<lambda>ev. False) mounted_tool =
     ([SubscriptionRemove 1, SubscriptionRemove 2,
       ModelComplete 3, ModelCancel 3, ModelReset 3, ModelDestroy 3, ViewMapRemove 4],
      Returned)"
    by blast
  have split: "fst (tool_componentWillUnmount (\<lambda>ev. False) mounted_tool) =
      [SubscriptionRemove 1, SubscriptionRemove 2, ModelComplete 3] @
      ModelCancel 3 # [ModelReset 3, ModelDestroy 3, ViewMapRemove 4] \<and>
      list_all (\<lambda>ev. \<not> ev = ModelCancel 3)
        [SubscriptionRemove 1, SubscriptionRemove 2, ModelComplete 3] \<and>
      ModelCancel 3 = ModelCancel 3"
    unfolding a by simp
  from t have "\<forall>pre call post.
      fst (tool_componentWillUnmount (\<lambda>ev. False) mounted_tool) = pre @ call # post \<and>
      list_all (\<lambda>ev. \<not> ev = ModelCancel 3) pre \<and> call = ModelCancel 3 \<longrightarrow>
      tool_componentWillUnmount (\<lambda>ev. ev = ModelCancel 3) mounted_tool =
        (pre @ [call], Threw EngineError)"
    by blast
  with split have b: "tool_componentWillUnmount (\<lambda>ev. ev = ModelCancel 3) mounted_tool =
     ([SubscriptionRemove 1, SubscriptionRemove 2, ModelComplete 3] @ [ModelCancel 3],
      Threw EngineError)"
    by blast
  from a b show ?thesis by simp
qed

end
